theory Spec2Isabelle
  imports Main
begin

section \<open>The Raft core of leifdb (internal/node/node.go)\<close>

text \<open>
  A shallow embedding of the parts of \<^verbatim>\<open>internal/node/node.go\<close> that serve the two
  peer handlers (\<^verbatim>\<open>HandleVote\<close>, \<^verbatim>\<open>HandleAppend\<close>), the leader's
  \<^verbatim>\<open>commitRecords\<close> and the client helper \<^verbatim>\<open>RedirectLeader\<close>.

  Conventions of the embedding:
  \<^item> Go's \<^verbatim>\<open>int64\<close> is \<^typ>\<open>int\<close>. The one addition of the modelled code that can leave the
    64-bit range on values of that range, \<^verbatim>\<open>n.Term+1\<close>, is written with the wrap-around
    \<open>wrap64\<close>. Every other addition or subtraction is guarded by a comparison that keeps it in
    range (a counter strictly below another \<^verbatim>\<open>int64\<close> is incremented, a counter strictly
    above another is decremented, or the operands are bounded by a slice length); the place
    is noted at each definition.
  \<^item> A Go pointer that can be \<^verbatim>\<open>nil\<close> is an \<^typ>\<open>'a option\<close>; dereferencing \<open>None\<close>, indexing
    a slice out of range and slicing out of bounds are the run-time panics of Go and are
    values \<open>Inl\<close> of the result type \<open>fault + 'a\<close>. The handlers run without a \<^verbatim>\<open>recover\<close>,
    so a panic ends the call with no reply. The records of a log and of a request are
    never \<^verbatim>\<open>nil\<close>: they come from the protobuf decoder, which allocates each one.
  \<^item> A Go map with string keys is an association list; the modelled code only looks keys
    up, counts the entries and visits every entry, so the iteration order of the map does
    not show in any result.
  \<^item> The two files of the durable store are fields of the node state. A write that the
    file system refuses ends the process (\<^verbatim>\<open>log.Fatal\<close>); the model covers the runs in
    which the file system accepts every write.
  \<^item> Each function is modelled as one sequential call. The handlers take no lock in the
    source, so the model says nothing about two handlers interleaving.
\<close>

subsection \<open>Data of api/raft.proto\<close>

record raft_Node =
  Id :: string
  ClientAddr :: string

text \<open>
  The enum \<^verbatim>\<open>LogRecord.Action\<close>. A proto3 enum is open: a number other than 0 and 1 read
  from the wire is kept, and is neither \<^verbatim>\<open>SET\<close> nor \<^verbatim>\<open>DEL\<close>.
\<close>

datatype Action = LogRecord_SET | LogRecord_DEL | LogRecord_other

record LogRecord =
  Term :: int
  Action :: Action
  Key :: string
  Value :: string

record TermRecord =
  Term :: int
  VotedFor :: "raft_Node option"

record VoteRequest =
  Term :: int
  Candidate :: "raft_Node option"
  LastLogIndex :: int
  LastLogTerm :: int

record VoteReply =
  Term :: int
  VoteGranted :: bool
  Node :: "raft_Node option"

record AppendRequest =
  Term :: int
  Leader :: "raft_Node option"
  PrevLogIndex :: int
  PrevLogTerm :: int
  LeaderCommit :: int
  Entries :: "LogRecord list"

record AppendReply =
  Term :: int
  Success :: bool

subsection \<open>Data of internal/node/node.go\<close>

datatype Role = Leader | Follower

datatype fault = NilDereference | IndexOutOfRange | SliceBoundsOutOfRange

text \<open>
  \<^verbatim>\<open>ForeignNode\<close> without its gRPC connection and client, which no modelled function reads.
\<close>

record ForeignNode =
  NextIndex :: int
  MatchIndex :: int
  Available :: bool

text \<open>
  The struct \<^verbatim>\<open>Node\<close>. \<open>otherNodes\<close> is the map from peer id to \<^verbatim>\<open>*ForeignNode\<close>
  (\<open>None\<close> is the \<^verbatim>\<open>nil\<close> that \<^verbatim>\<open>AddForeignNode\<close> stores when the dial fails). \<open>Reset\<close>
  counts the signals sent to the channel of that name. \<open>Log\<close> is \<^verbatim>\<open>n.Log.Entries\<close>.
  \<open>Store\<close> is the key-value database. \<open>TermFile\<close> and \<open>LogFile\<close> are the contents of the
  files \<^verbatim>\<open>config.TermFile\<close> and \<^verbatim>\<open>config.LogFile\<close>, \<open>None\<close> while the file does not exist.
\<close>

record Node =
  RaftNode :: raft_Node
  State :: Role
  Term :: int
  votedFor :: "raft_Node option"
  Reset :: nat
  otherNodes :: "(string \<times> ForeignNode option) list"
  CheckForeignNode :: "string \<Rightarrow> (string \<times> ForeignNode option) list \<Rightarrow> bool"
  AllowVote :: bool
  CommitIndex :: int
  lastApplied :: int
  Log :: "LogRecord list"
  Store :: "string \<rightharpoonup> string"
  TermFile :: "TermRecord option"
  LogFile :: "LogRecord list option"

subsection \<open>Machine integers and slices\<close>

definition i64_max :: int where
  "i64_max = 2 ^ 63 - 1"

definition i64_min :: int where
  "i64_min = - (2 ^ 63)"

text \<open>The value of a 64-bit two's complement computation whose exact result is \<open>x\<close>.\<close>

definition wrap64 :: "int \<Rightarrow> int" where
  "wrap64 x = (x + 2 ^ 63) mod 2 ^ 64 - 2 ^ 63"

text \<open>\<^verbatim>\<open>s[i]\<close> on a slice: a panic unless \<open>0 \<le> i < len(s)\<close>.\<close>

definition index :: "'a list \<Rightarrow> int \<Rightarrow> fault + 'a" where
  "index s i = (if 0 \<le> i \<and> i < int (length s) then Inr (s ! nat i) else Inl IndexOutOfRange)"

text \<open>\<^verbatim>\<open>s[lo:]\<close>: a panic unless \<open>0 \<le> lo \<le> len(s)\<close>.\<close>

definition slice_from :: "'a list \<Rightarrow> int \<Rightarrow> fault + 'a list" where
  "slice_from s lo =
     (if 0 \<le> lo \<and> lo \<le> int (length s) then Inr (drop (nat lo) s) else Inl SliceBoundsOutOfRange)"

text \<open>
  \<^verbatim>\<open>s[:hi]\<close>: a panic unless \<open>0 \<le> hi \<le> cap(s)\<close>. The model takes the capacity to be the
  length; the one use below has \<open>hi < len(s)\<close>.
\<close>

definition slice_to :: "'a list \<Rightarrow> int \<Rightarrow> fault + 'a list" where
  "slice_to s hi =
     (if 0 \<le> hi \<and> hi \<le> int (length s) then Inr (take (nat hi) s) else Inl SliceBoundsOutOfRange)"

subsection \<open>The key-value store\<close>

text \<open>
  Modelled from the spec: the package \<^verbatim>\<open>internal/database\<close> is not among the sources. The
  spec names it an in-memory key-value map with \<^verbatim>\<open>Set(k,v)\<close> and \<^verbatim>\<open>Delete(k)\<close>, both
  infallible.
\<close>

definition db_Set :: "(string \<rightharpoonup> string) \<Rightarrow> string \<Rightarrow> string \<Rightarrow> (string \<rightharpoonup> string)" where
  "db_Set st k v = st(k \<mapsto> v)"

definition db_Delete :: "(string \<rightharpoonup> string) \<Rightarrow> string \<Rightarrow> (string \<rightharpoonup> string)" where
  "db_Delete st k = st(k := None)"

subsection \<open>Non-volatile state\<close>

text \<open>\<^verbatim>\<open>RedirectLeader\<close>.\<close>

definition RedirectLeader :: "Node \<Rightarrow> string" where
  "RedirectLeader n = (case votedFor n of None \<Rightarrow> '''' | Some v \<Rightarrow> ClientAddr v)"

text \<open>\<^verbatim>\<open>ReadTerm\<close>: the record of the file, or term 0 with no vote when the file is missing.\<close>

definition ReadTerm :: "TermRecord option \<Rightarrow> TermRecord" where
  "ReadTerm file =
     (case file of None \<Rightarrow> \<lparr>TermRecord.Term = 0, VotedFor = None\<rparr> | Some r \<Rightarrow> r)"

text \<open>\<^verbatim>\<open>ReadLogs\<close>: the entries of the file, or none when the file is missing.\<close>

definition ReadLogs :: "LogRecord list option \<Rightarrow> LogRecord list" where
  "ReadLogs file = (case file of None \<Rightarrow> [] | Some es \<Rightarrow> es)"

text \<open>\<^verbatim>\<open>SetTerm\<close>: the term and the vote, in memory and then in the term file.\<close>

definition SetTerm :: "Node \<Rightarrow> int \<Rightarrow> raft_Node option \<Rightarrow> Node" where
  "SetTerm n newTerm vote =
     n\<lparr>Node.Term := newTerm, votedFor := vote,
       TermFile := Some \<lparr>TermRecord.Term = newTerm, VotedFor = vote\<rparr>\<rparr>"

text \<open>\<^verbatim>\<open>setLog\<close>: the log file is written, then \<^verbatim>\<open>n.Log\<close> holds the written entries.\<close>

definition setLog :: "Node \<Rightarrow> LogRecord list \<Rightarrow> Node" where
  "setLog n newLogs = n\<lparr>LogFile := Some newLogs, Log := newLogs\<rparr>"

text \<open>\<^verbatim>\<open>resetElectionTimer\<close>: the role is Follower and one signal goes to the reset channel.\<close>

definition resetElectionTimer :: "Node \<Rightarrow> Node" where
  "resetElectionTimer n = n\<lparr>State := Follower, Reset := Suc (Reset n)\<rparr>"

subsection \<open>Construction\<close>

text \<open>\<^verbatim>\<open>checkForeignNode\<close>: the id is a key of the map.\<close>

definition checkForeignNode :: "string \<Rightarrow> (string \<times> ForeignNode option) list \<Rightarrow> bool" where
  "checkForeignNode addr known = (map_of known addr \<noteq> None)"

text \<open>
  \<^verbatim>\<open>NewForeignNode\<close>; \<open>dialed\<close> says whether \<^verbatim>\<open>grpc.DialContext\<close> returned a connection.
\<close>

definition NewForeignNode :: "bool \<Rightarrow> ForeignNode option" where
  "NewForeignNode dialed =
     (if dialed then Some \<lparr>NextIndex = 0, MatchIndex = - 1, Available = True\<rparr> else None)"

text \<open>The map assignment \<^verbatim>\<open>m[k] = v\<close>.\<close>

fun map_assign :: "(string \<times> 'v) list \<Rightarrow> string \<Rightarrow> 'v \<Rightarrow> (string \<times> 'v) list" where
  "map_assign [] k v = [(k, v)]"
| "map_assign ((k', v') # m) k v =
     (if k' = k then (k, v) # m else (k', v') # map_assign m k v)"

text \<open>\<^verbatim>\<open>AddForeignNode\<close>, the error of the dial dropped as in the source.\<close>

definition AddForeignNode :: "(string \<Rightarrow> bool) \<Rightarrow> Node \<Rightarrow> string \<Rightarrow> Node" where
  "AddForeignNode dial n addr =
     n\<lparr>otherNodes := map_assign (otherNodes n) addr (NewForeignNode (dial addr))\<rparr>"

text \<open>
  \<^verbatim>\<open>NewNode\<close>, from the identity and the peer ids of the configuration, the two files and the
  store.
\<close>

definition NewNode ::
  "(string \<Rightarrow> bool) \<Rightarrow> raft_Node \<Rightarrow> string list \<Rightarrow> TermRecord option \<Rightarrow> LogRecord list option
     \<Rightarrow> (string \<rightharpoonup> string) \<Rightarrow> Node" where
  "NewNode dial self NodeIds termFile logFile store =
     foldl (AddForeignNode dial)
       \<lparr>RaftNode = self, State = Follower, Node.Term = TermRecord.Term (ReadTerm termFile),
        votedFor = VotedFor (ReadTerm termFile), Reset = 0, otherNodes = [],
        CheckForeignNode = checkForeignNode, AllowVote = True, CommitIndex = - 1,
        lastApplied = - 1, Log = ReadLogs logFile, Store = store,
        TermFile = termFile, LogFile = logFile\<rparr>
       NodeIds"

subsection \<open>Votes\<close>

text \<open>
  \<^verbatim>\<open>candidateLogUpToDate\<close>. Go's \<^verbatim>\<open>||\<close> and \<^verbatim>\<open>&&\<close> evaluate the right operand only when
  the left one does not decide, so the log is read for \<open>upToDate\<close> only when the indices are
  equal and not both \<open>-1\<close>. The debug record of a refusal reads the log a second time when
  \<open>indexPresent\<close>, which also holds for a negative index; the argument of the logging call is
  evaluated whatever the log level.
\<close>

definition candidateLogUpToDate :: "Node \<Rightarrow> int \<Rightarrow> int \<Rightarrow> fault + bool" where
  "candidateLogUpToDate n cLogIndex cLogTerm =
     (let indexGreater = (cLogIndex > CommitIndex n);
          indexEqual = (cLogIndex = CommitIndex n);
          bothEmpty = (cLogIndex = - 1 \<and> CommitIndex n = - 1);
          indexPresent = (cLogIndex < int (length (Log n)))
      in case (if indexGreater \<or> bothEmpty then Inr True
               else if indexEqual then
                 (case index (Log n) cLogIndex of
                    Inl e \<Rightarrow> Inl e
                  | Inr r \<Rightarrow> Inr (cLogTerm = LogRecord.Term r))
               else Inr False) of
           Inl e \<Rightarrow> Inl e
         | Inr upToDate \<Rightarrow>
             if \<not> upToDate \<and> indexPresent then
               (case index (Log n) cLogIndex of
                  Inl e \<Rightarrow> Inl e
                | Inr r \<Rightarrow> Inr upToDate)
             else Inr upToDate)"

text \<open>
  \<^verbatim>\<open>HandleVote\<close>. The first statement formats \<^verbatim>\<open>req.Candidate.Id\<close>, a panic when the request
  carries no candidate. \<^verbatim>\<open>n.Term+1\<close> is the one 64-bit addition with no guard.
\<close>

definition HandleVote :: "Node \<Rightarrow> VoteRequest \<Rightarrow> fault + (Node \<times> VoteReply)" where
  "HandleVote n req =
     (case Candidate req of
        None \<Rightarrow> Inl NilDereference
      | Some cand \<Rightarrow>
          (case (if VoteRequest.Term req < Node.Term n then Inr (n, False)
                 else if VoteRequest.Term req = Node.Term n then
                   (if State n = Role.Leader
                    then Inr (SetTerm n (wrap64 (Node.Term n + 1)) (Some (RaftNode n)), False)
                    else Inr (n, False))
                 else if \<not> CheckForeignNode n (raft_Node.Id cand) (otherNodes n) then Inr (n, False)
                 else
                   (case candidateLogUpToDate n (LastLogIndex req) (LastLogTerm req) of
                      Inl e \<Rightarrow> Inl e
                    | Inr upToDate \<Rightarrow>
                        if \<not> upToDate then Inr (n, False)
                        else if \<not> AllowVote n then Inr (n, False)
                        else Inr (SetTerm (resetElectionTimer n) (VoteRequest.Term req)
                                    (Candidate req), True))) of
             Inl e \<Rightarrow> Inl e
           | Inr (n', vote) \<Rightarrow>
               Inr (n', \<lparr>VoteReply.Term = Node.Term n', VoteGranted = vote,
                         Node = Some (RaftNode n')\<rparr>)))"

subsection \<open>Appends\<close>

text \<open>
  \<^verbatim>\<open>validateAppend\<close>. With \<^verbatim>\<open>term == n.Term\<close> the right operand of \<^verbatim>\<open>&&\<close> reads
  \<^verbatim>\<open>n.votedFor.Id\<close>.
\<close>

definition validateAppend :: "Node \<Rightarrow> int \<Rightarrow> string \<Rightarrow> fault + (Node \<times> bool)" where
  "validateAppend n term leaderId =
     (case (if term < Node.Term n then Inr False
            else if term = Node.Term n then
              (case votedFor n of
                 None \<Rightarrow> Inl NilDereference
               | Some v \<Rightarrow> Inr (\<not> leaderId \<noteq> raft_Node.Id v))
            else Inr True) of
        Inl e \<Rightarrow> Inl e
      | Inr success \<Rightarrow> Inr (if success then resetElectionTimer n else n, success))"

text \<open>
  The \<^verbatim>\<open>range\<close> loop of \<^verbatim>\<open>reconcileLogs\<close> over \<^verbatim>\<open>overlappingEntries\<close>, from position \<open>i\<close> on;
  the result is \<^verbatim>\<open>mismatchIdx\<close>, \<open>-1\<close> when the loop ends without a \<^verbatim>\<open>break\<close>. The read
  \<^verbatim>\<open>body.Entries[i]\<close> follows the test \<^verbatim>\<open>i >= len(body.Entries)\<close> and is in range; the sums
  are bounded by the length of the local log.
\<close>

fun reconcileLogs_scan :: "LogRecord list \<Rightarrow> LogRecord list \<Rightarrow> int \<Rightarrow> nat \<Rightarrow> int" where
  "reconcileLogs_scan [] entries prevLogIndex i = - 1"
| "reconcileLogs_scan (rec # overlapping) entries prevLogIndex i =
     (if i \<ge> length entries then prevLogIndex + int i
      else if LogRecord.Term rec \<noteq> LogRecord.Term (entries ! i) then prevLogIndex + 1 + int i
      else reconcileLogs_scan overlapping entries prevLogIndex (Suc i))"

text \<open>
  \<^verbatim>\<open>reconcileLogs\<close>, on the entries of the local log. \<^verbatim>\<open>body.PrevLogIndex+1\<close> is computed
  under \<^verbatim>\<open>body.PrevLogIndex < len-1\<close>, and \<^verbatim>\<open>offset\<close> is a slice length minus one minus a
  64-bit value that is at least \<open>-1\<close> or at least that length minus one. The last statement
  before the \<^verbatim>\<open>return\<close> formats \<^verbatim>\<open>body.Leader.Id\<close>.
\<close>

definition reconcileLogs :: "LogRecord list \<Rightarrow> AppendRequest \<Rightarrow> fault + LogRecord list" where
  "reconcileLogs logStore body =
     (case (if PrevLogIndex body < int (length logStore) - 1 then
              (case slice_from logStore (PrevLogIndex body + 1) of
                 Inl e \<Rightarrow> Inl e
               | Inr overlappingEntries \<Rightarrow>
                   Inr (reconcileLogs_scan overlappingEntries (Entries body) (PrevLogIndex body) 0))
            else Inr (- 1)) of
        Inl e \<Rightarrow> Inl e
      | Inr mismatchIdx \<Rightarrow>
          (case (if mismatchIdx \<ge> 0 then slice_to logStore mismatchIdx else Inr logStore) of
             Inl e \<Rightarrow> Inl e
           | Inr entries' \<Rightarrow>
               (let offset = int (length entries') - 1 - PrevLogIndex body
                in case slice_from (Entries body) offset of
                     Inl e \<Rightarrow> Inl e
                   | Inr newLogs \<Rightarrow>
                       (case AppendRequest.Leader body of
                          None \<Rightarrow> Inl NilDereference
                        | Some l \<Rightarrow> Inr (entries' @ newLogs)))))"

text \<open>The effect of one log record on the store, as both apply loops have it.\<close>

definition applyRecordToStore :: "(string \<rightharpoonup> string) \<Rightarrow> LogRecord \<Rightarrow> (string \<rightharpoonup> string)" where
  "applyRecordToStore st r =
     (if Action r = LogRecord_SET then db_Set st (Key r) (Value r)
      else if Action r = LogRecord_DEL then db_Delete st (Key r)
      else st)"

text \<open>
  The loop of \<^verbatim>\<open>applyCommittedLogs\<close>: \<^verbatim>\<open>n.CommitIndex++\<close> under
  \<^verbatim>\<open>n.CommitIndex < commitIdx\<close>, then the reads of \<^verbatim>\<open>n.Log.Entries[n.CommitIndex]\<close>.
\<close>

function applyCommittedLogs_loop :: "Node \<Rightarrow> int \<Rightarrow> fault + Node" where
  "applyCommittedLogs_loop n commitIdx =
     (if CommitIndex n < commitIdx then
        (case index (Log n) (CommitIndex n + 1) of
           Inl e \<Rightarrow> Inl e
         | Inr r \<Rightarrow>
             applyCommittedLogs_loop
               (n\<lparr>CommitIndex := CommitIndex n + 1, Store := applyRecordToStore (Store n) r\<rparr>)
               commitIdx)
      else Inr n)"
  by pat_completeness auto
termination
  by (relation "measure (\<lambda>(n, commitIdx). nat (commitIdx - CommitIndex n))") auto

text \<open>\<^verbatim>\<open>applyCommittedLogs\<close>.\<close>

definition applyCommittedLogs :: "Node \<Rightarrow> int \<Rightarrow> fault + Node" where
  "applyCommittedLogs n commitIdx =
     (if commitIdx > CommitIndex n then
        (let lastIndex = int (length (Log n));
             commitIdx' = (if commitIdx > lastIndex then lastIndex else commitIdx)
         in applyCommittedLogs_loop n commitIdx')
      else Inr n)"

text \<open>
  \<^verbatim>\<open>checkPrevious\<close>. \<open>matches\<close> is computed, and the log read, before \<open>inRange\<close> is used.
\<close>

definition checkPrevious :: "Node \<Rightarrow> int \<Rightarrow> int \<Rightarrow> fault + bool" where
  "checkPrevious n prevIndex prevTerm =
     (if prevIndex < 0 then Inr True
      else
        (let inRange = (prevIndex < int (length (Log n)))
         in case index (Log n) prevIndex of
              Inl e \<Rightarrow> Inl e
            | Inr r \<Rightarrow> Inr (inRange \<and> LogRecord.Term r = prevTerm)))"

text \<open>
  \<^verbatim>\<open>HandleAppend\<close>. The argument \<^verbatim>\<open>req.Leader.Id\<close> is read first; \<open>valid\<close> and \<open>matched\<close> are
  both computed before either is tested.
\<close>

definition HandleAppend :: "Node \<Rightarrow> AppendRequest \<Rightarrow> fault + (Node \<times> AppendReply)" where
  "HandleAppend n req =
     (case AppendRequest.Leader req of
        None \<Rightarrow> Inl NilDereference
      | Some l \<Rightarrow>
          (case validateAppend n (AppendRequest.Term req) (raft_Node.Id l) of
             Inl e \<Rightarrow> Inl e
           | Inr (n1, valid) \<Rightarrow>
               (case checkPrevious n1 (PrevLogIndex req) (PrevLogTerm req) of
                  Inl e \<Rightarrow> Inl e
                | Inr matched \<Rightarrow>
                    (case (if \<not> valid then Inr (n1, False)
                           else if \<not> matched then Inr (n1, False)
                           else
                             (case (if length (Entries req) > 0 then
                                      (case reconcileLogs (Log n1) req of
                                         Inl e \<Rightarrow> Inl e
                                       | Inr entries' \<Rightarrow> Inr (setLog n1 entries'))
                                    else Inr n1) of
                                Inl e \<Rightarrow> Inl e
                              | Inr n2 \<Rightarrow>
                                  (case applyCommittedLogs n2 (LeaderCommit req) of
                                     Inl e \<Rightarrow> Inl e
                                   | Inr n3 \<Rightarrow> Inr (n3, True)))) of
                       Inl e \<Rightarrow> Inl e
                     | Inr (n4, success) \<Rightarrow>
                         (let n5 = (if valid then
                                      resetElectionTimer
                                        (if AppendRequest.Term req > Node.Term n4
                                         then SetTerm n4 (AppendRequest.Term req)
                                                (AppendRequest.Leader req)
                                         else n4)
                                    else n4)
                          in Inr (n5, \<lparr>AppendReply.Term = Node.Term n5,
                                        Success = success\<rparr>))))))"

subsection \<open>Commit on the leader\<close>

text \<open>
  The inner loop of \<^verbatim>\<open>commitRecords\<close> over the map of peers: \<open>count\<close> grows by one for
  each peer whose \<^verbatim>\<open>MatchIndex\<close> is at least \<open>lastIdx\<close>; reading the field of a \<^verbatim>\<open>nil\<close> peer
  panics.
\<close>

fun commitRecords_count :: "(string \<times> ForeignNode option) list \<Rightarrow> int \<Rightarrow> int \<Rightarrow> fault + int" where
  "commitRecords_count [] lastIdx count = Inr count"
| "commitRecords_count ((k, None) # others) lastIdx count = Inl NilDereference"
| "commitRecords_count ((k, Some f) # others) lastIdx count =
     commitRecords_count others lastIdx (if MatchIndex f \<ge> lastIdx then count + 1 else count)"

text \<open>
  The first loop of \<^verbatim>\<open>commitRecords\<close>, from \<open>lastIdx\<close> downwards; \<^verbatim>\<open>lastIdx--\<close> runs under
  \<^verbatim>\<open>lastIdx > n.CommitIndex\<close>.
\<close>

function commitRecords_scan :: "Node \<Rightarrow> int \<Rightarrow> int \<Rightarrow> fault + Node" where
  "commitRecords_scan n majority lastIdx =
     (if lastIdx > CommitIndex n then
        (case commitRecords_count (otherNodes n) lastIdx 1 of
           Inl e \<Rightarrow> Inl e
         | Inr count \<Rightarrow>
             if count \<ge> majority then Inr (n\<lparr>CommitIndex := lastIdx\<rparr>)
             else commitRecords_scan n majority (lastIdx - 1))
      else Inr n)"
  by pat_completeness auto
termination
  by (relation "measure (\<lambda>(n, majority, lastIdx). nat (lastIdx - CommitIndex n))") auto

text \<open>
  The second loop of \<^verbatim>\<open>commitRecords\<close>: \<^verbatim>\<open>n.lastApplied++\<close> under
  \<^verbatim>\<open>n.lastApplied < n.CommitIndex\<close>, then the reads of \<^verbatim>\<open>n.Log.Entries[n.lastApplied]\<close>.
\<close>

function commitRecords_apply :: "Node \<Rightarrow> fault + Node" where
  "commitRecords_apply n =
     (if lastApplied n < CommitIndex n then
        (case index (Log n) (lastApplied n + 1) of
           Inl e \<Rightarrow> Inl e
         | Inr r \<Rightarrow>
             commitRecords_apply
               (n\<lparr>lastApplied := lastApplied n + 1, Store := applyRecordToStore (Store n) r\<rparr>))
      else Inr n)"
  by pat_completeness auto
termination
  by (relation "measure (\<lambda>n. nat (CommitIndex n - lastApplied n))") auto

text \<open>
  \<^verbatim>\<open>commitRecords\<close>. \<open>numNodes\<close> is the number of peers, which is not negative, so Go's
  truncating division by 2 is \<open>div\<close>.
\<close>

definition commitRecords :: "Node \<Rightarrow> fault + Node" where
  "commitRecords n =
     (let numNodes = int (length (otherNodes n));
          majority = numNodes div 2 + 1;
          lastIdx = int (length (Log n)) - 1
      in case commitRecords_scan n majority lastIdx of
           Inl e \<Rightarrow> Inl e
         | Inr n' \<Rightarrow> commitRecords_apply n')"

subsection \<open>Elections\<close>

text \<open>
  The vote requests of \<^verbatim>\<open>DoElection\<close>, one per entry of the peer map. \<open>rpc\<close> is the network:
  the reply of each peer to \<^verbatim>\<open>RequestVote\<close>, \<open>None\<close> for an error or a missed deadline. In
  the source each request runs in its own goroutine and the counters are read after
  \<^verbatim>\<open>wg.Wait()\<close>; the model takes the replies one after the other. \<^verbatim>\<open>requestVote\<close> reads
  \<^verbatim>\<open>n.otherNodes[host].Client\<close> and records the availability of the peer.
\<close>

fun DoElection_votes ::
  "(string \<Rightarrow> VoteReply option) \<Rightarrow> (string \<times> ForeignNode option) list
     \<Rightarrow> int \<times> int \<times> raft_Node option
     \<Rightarrow> fault + ((string \<times> ForeignNode option) list \<times> int \<times> int \<times> raft_Node option)" where
  "DoElection_votes rpc [] tally = Inr ([], tally)"
| "DoElection_votes rpc ((k, None) # others) tally = Inl NilDereference"
| "DoElection_votes rpc ((k, Some f) # others) (numVotes, maxTermSeen, maxTermSeenSource) =
     (case DoElection_votes rpc others
             (case rpc k of
                None \<Rightarrow> (numVotes, maxTermSeen, maxTermSeenSource)
              | Some vote \<Rightarrow>
                  if VoteGranted vote then (numVotes + 1, maxTermSeen, maxTermSeenSource)
                  else if VoteReply.Term vote > maxTermSeen
                    then (numVotes, VoteReply.Term vote, VoteReply.Node vote)
                    else (numVotes, maxTermSeen, maxTermSeenSource)) of
        Inl e \<Rightarrow> Inl e
      | Inr (others', tally') \<Rightarrow>
          Inr ((k, Some (f\<lparr>Available := (rpc k \<noteq> None)\<rparr>)) # others', tally'))"

text \<open>The loop of a won election over the peers: the replication indices start over.\<close>

fun DoElection_reindex ::
  "int \<Rightarrow> (string \<times> ForeignNode option) list \<Rightarrow> fault + (string \<times> ForeignNode option) list" where
  "DoElection_reindex len [] = Inr []"
| "DoElection_reindex len ((k, None) # others) = Inl NilDereference"
| "DoElection_reindex len ((k, Some f) # others) =
     (case DoElection_reindex len others of
        Inl e \<Rightarrow> Inl e
      | Inr others' \<Rightarrow> Inr ((k, Some (f\<lparr>MatchIndex := - 1, NextIndex := len\<rparr>)) # others'))"

text \<open>
  \<^verbatim>\<open>DoElection\<close>. The new term is \<^verbatim>\<open>n.Term+1\<close> with the vote for the node itself. A lost
  election that saw a higher term formats \<^verbatim>\<open>maxTermSeenSource.Id\<close> before it adopts the
  term.
\<close>

definition DoElection :: "Node \<Rightarrow> (string \<Rightarrow> VoteReply option) \<Rightarrow> fault + (Node \<times> bool)" where
  "DoElection n rpc =
     (let n1 = SetTerm n (wrap64 (Node.Term n + 1)) (Some (RaftNode n));
          numNodes = int (length (otherNodes n1)) + 1;
          majority = numNodes div 2 + 1
      in case DoElection_votes rpc (otherNodes n1) (1, Node.Term n1, votedFor n1) of
           Inl e \<Rightarrow> Inl e
         | Inr (others, numVotes, maxTermSeen, maxTermSeenSource) \<Rightarrow>
             (let n2 = n1\<lparr>otherNodes := others\<rparr>
              in if numVotes < majority then
                   (if maxTermSeen > Node.Term n2 then
                      (case maxTermSeenSource of
                         None \<Rightarrow> Inl NilDereference
                       | Some src \<Rightarrow> Inr (SetTerm n2 maxTermSeen maxTermSeenSource, False))
                    else Inr (n2, False))
                 else
                   (case DoElection_reindex (int (length (Log n2))) (otherNodes n2) of
                      Inl e \<Rightarrow> Inl e
                    | Inr others' \<Rightarrow>
                        Inr (n2\<lparr>State := Role.Leader, AllowVote := False,
                                 otherNodes := others'\<rparr>, True))))"

subsection \<open>Scenario states\<close>

text \<open>The peers and the log record of the scenarios S3 and S4 of the specification.\<close>

definition peer_L :: raft_Node where
  "peer_L = \<lparr>raft_Node.Id = ''10.0.0.2:16990'', ClientAddr = ''10.0.0.2:8080''\<rparr>"

definition peer_self :: raft_Node where
  "peer_self = \<lparr>raft_Node.Id = ''10.0.0.1:16990'', ClientAddr = ''10.0.0.1:8080''\<rparr>"

definition record_k_v :: LogRecord where
  "record_k_v = \<lparr>LogRecord.Term = 7, Action = LogRecord_SET, Key = ''k'', Value = ''v''\<rparr>"

text \<open>
  The state after scenario S3, as a node started on the files that S3 leaves: term 7 with the
  vote for L, the log of one record, nothing committed or applied, an empty store.
\<close>

definition S3_state :: Node where
  "S3_state =
     NewNode (\<lambda>addr. True) peer_self [''10.0.0.2:16990'', ''10.0.0.3:16990'']
       (Some \<lparr>TermRecord.Term = 7, VotedFor = Some peer_L\<rparr>) (Some [record_k_v]) Map.empty"

text \<open>The request of scenario S4.\<close>

definition S4_request :: AppendRequest where
  "S4_request =
     \<lparr>AppendRequest.Term = 7, Leader = Some peer_L, PrevLogIndex = 0, PrevLogTerm = 7,
      LeaderCommit = 0, Entries = []\<rparr>"

text \<open>The state that \<^verbatim>\<open>HandleAppend\<close> leaves in scenario S4.\<close>

definition S4_after :: Node where
  "S4_after = S3_state\<lparr>Reset := 2, CommitIndex := 0, Store := [''k'' \<mapsto> ''v'']\<rparr>"

text \<open>A network in which every peer grants its vote and reports the term \<open>term\<close>.\<close>

definition all_grant :: "int \<Rightarrow> string \<Rightarrow> VoteReply option" where
  "all_grant term k =
     Some \<lparr>VoteReply.Term = term, VoteGranted = True,
           Node = Some \<lparr>raft_Node.Id = k, ClientAddr = ''''\<rparr>\<rparr>"

text \<open>
  A node of a cluster of three started on an empty data directory, and the state in which
  it wins its first election.
\<close>

definition fresh_node :: Node where
  "fresh_node =
     NewNode (\<lambda>addr. True) peer_self [''10.0.0.2:16990'', ''10.0.0.3:16990''] None None Map.empty"

definition elected_leader :: Node where
  "elected_leader =
     fresh_node\<lparr>State := Role.Leader, Node.Term := 1, votedFor := Some peer_self,
                AllowVote := False,
                TermFile := Some \<lparr>TermRecord.Term = 1, VotedFor = Some peer_self\<rparr>\<rparr>"

text \<open>
  A node whose term file holds the term \<open>2^63 - 2\<close>, the leader of term \<open>2^63 - 1\<close> that it
  becomes by winning an election, a vote request for that term, and the state the request
  leaves.
\<close>

definition max_term_candidate :: Node where
  "max_term_candidate =
     NewNode (\<lambda>addr. True) peer_self [''10.0.0.2:16990'', ''10.0.0.3:16990'']
       (Some \<lparr>TermRecord.Term = i64_max - 1, VotedFor = Some peer_L\<rparr>) None Map.empty"

definition max_term_leader :: Node where
  "max_term_leader =
     max_term_candidate\<lparr>State := Role.Leader, Node.Term := i64_max, votedFor := Some peer_self,
                AllowVote := False,
                TermFile := Some \<lparr>TermRecord.Term = i64_max, VotedFor = Some peer_self\<rparr>\<rparr>"

definition max_term_vote :: VoteRequest where
  "max_term_vote =
     \<lparr>VoteRequest.Term = i64_max, Candidate = Some peer_L, LastLogIndex = - 1, LastLogTerm = 0\<rparr>"

definition max_term_wrapped :: Node where
  "max_term_wrapped =
     max_term_leader\<lparr>Node.Term := i64_min,
                TermFile := Some \<lparr>TermRecord.Term = i64_min, VotedFor = Some peer_self\<rparr>\<rparr>"

text \<open>A vote request of term 9 from L to the node of S3, and the state after the grant.\<close>

definition S3_vote :: VoteRequest where
  "S3_vote =
     \<lparr>VoteRequest.Term = 9, Candidate = Some peer_L, LastLogIndex = - 1, LastLogTerm = 0\<rparr>"

definition S3_voted :: Node where
  "S3_voted =
     S3_state\<lparr>State := Follower, Reset := 1, Node.Term := 9, votedFor := Some peer_L,
              TermFile := Some \<lparr>TermRecord.Term = 9, VotedFor = Some peer_L\<rparr>\<rparr>"

text \<open>The log, the request and the result of scenario S6, on a node of term 3.\<close>

definition set_record :: "int \<Rightarrow> string \<Rightarrow> string \<Rightarrow> LogRecord" where
  "set_record term k v = \<lparr>LogRecord.Term = term, Action = LogRecord_SET, Key = k, Value = v\<rparr>"

definition S6_log :: "LogRecord list" where
  "S6_log = [set_record 1 ''a'' ''1'', set_record 1 ''b'' ''2'', set_record 2 ''c'' ''3'']"

definition S6_request :: AppendRequest where
  "S6_request =
     \<lparr>AppendRequest.Term = 4, Leader = Some peer_L, PrevLogIndex = 0, PrevLogTerm = 1,
      LeaderCommit = - 1, Entries = [set_record 4 ''b'' ''9'']\<rparr>"

definition S6_state :: Node where
  "S6_state =
     NewNode (\<lambda>addr. True) peer_self [''10.0.0.2:16990'', ''10.0.0.3:16990'']
       (Some \<lparr>TermRecord.Term = 3, VotedFor = Some peer_L\<rparr>) (Some S6_log) Map.empty"

definition S6_result :: "LogRecord list" where
  "S6_result = [set_record 1 ''a'' ''1'', set_record 4 ''b'' ''9'']"

text \<open>
  A follower of term 1 whose log has two records of term 1, and an append request of its
  leader from the start of the log with one record of term 1: the local log has one record
  more than the request.
\<close>

definition extra_log :: "LogRecord list" where
  "extra_log = [set_record 1 ''a'' ''1'', set_record 1 ''b'' ''2'']"

definition extra_request :: AppendRequest where
  "extra_request =
     \<lparr>AppendRequest.Term = 1, Leader = Some peer_L, PrevLogIndex = - 1, PrevLogTerm = 0,
      LeaderCommit = - 1, Entries = [set_record 1 ''x'' ''9'']\<rparr>"

definition extra_state :: Node where
  "extra_state =
     NewNode (\<lambda>addr. True) peer_self [''10.0.0.2:16990'', ''10.0.0.3:16990'']
       (Some \<lparr>TermRecord.Term = 1, VotedFor = Some peer_L\<rparr>) (Some extra_log) Map.empty"

definition extra_after :: Node where
  "extra_after =
     extra_state\<lparr>Reset := 2, Log := [set_record 1 ''x'' ''9''],
                 LogFile := Some [set_record 1 ''x'' ''9'']\<rparr>"

text \<open>
  A cluster of two: the follower with one record of term 6 in its log, the leader of term 7
  it becomes by winning an election, whose peer has acknowledged nothing, and the leader
  after \<^verbatim>\<open>commitRecords\<close>.
\<close>

definition two_node_follower :: Node where
  "two_node_follower =
     NewNode (\<lambda>addr. True) peer_self [''10.0.0.2:16990'']
       (Some \<lparr>TermRecord.Term = 6, VotedFor = Some peer_L\<rparr>) (Some [record_k_v]) Map.empty"

definition two_node_leader :: Node where
  "two_node_leader =
     two_node_follower\<lparr>State := Role.Leader, Node.Term := 7, votedFor := Some peer_self,
       AllowVote := False,
       otherNodes := [(''10.0.0.2:16990'',
                       Some \<lparr>NextIndex = 1, MatchIndex = - 1, Available = True\<rparr>)],
       TermFile := Some \<lparr>TermRecord.Term = 7, VotedFor = Some peer_self\<rparr>\<rparr>"

definition two_node_committed :: Node where
  "two_node_committed =
     two_node_leader\<lparr>CommitIndex := 0, lastApplied := 0, Store := [''k'' \<mapsto> ''v'']\<rparr>"

text \<open>
  A leader of term 8 in a cluster of three whose log is the one record of term 7, held by
  both peers, and the leader after \<^verbatim>\<open>commitRecords\<close>.
\<close>

definition old_term_leader :: Node where
  "old_term_leader =
     S3_state\<lparr>State := Role.Leader, Node.Term := 8, votedFor := Some peer_self,
       AllowVote := False,
       otherNodes := [(''10.0.0.2:16990'',
                       Some \<lparr>NextIndex = 1, MatchIndex = 0, Available = True\<rparr>),
                      (''10.0.0.3:16990'',
                       Some \<lparr>NextIndex = 1, MatchIndex = 0, Available = True\<rparr>)],
       TermFile := Some \<lparr>TermRecord.Term = 8, VotedFor = Some peer_self\<rparr>\<rparr>"

definition old_term_committed :: Node where
  "old_term_committed =
     old_term_leader\<lparr>CommitIndex := 0, lastApplied := 0, Store := [''k'' \<mapsto> ''v'']\<rparr>"

subsection \<open>The specification's own words\<close>

text \<open>
  The up-to-date predicate as section 4.1 of the specification writes it. Its third case
  reads \<open>log[c_idx]\<close>, which exists for \<open>0 \<le> c_idx < len(log)\<close>.
\<close>

definition spec_candidate_log_up_to_date :: "Node \<Rightarrow> int \<Rightarrow> int \<Rightarrow> bool" where
  "spec_candidate_log_up_to_date n c_idx c_term =
     (c_idx > CommitIndex n
      \<or> (c_idx = - 1 \<and> CommitIndex n = - 1)
      \<or> (c_idx = CommitIndex n \<and> 0 \<le> c_idx \<and> c_idx < int (length (Log n))
           \<and> c_term = LogRecord.Term (Log n ! nat c_idx)))"

text \<open>
  Log reconciliation as section 4.1 of the specification writes it. The mismatch point is
  the first index, scanning the local log from \<open>k\<close> alongside the incoming entries, where
  the terms differ or where the local log has an entry and the incoming entries have run
  out.
\<close>

fun spec_mismatch_point :: "LogRecord list \<Rightarrow> LogRecord list \<Rightarrow> nat \<Rightarrow> nat option" where
  "spec_mismatch_point [] entries k = None"
| "spec_mismatch_point (r # local) [] k = Some k"
| "spec_mismatch_point (r # local) (e # entries) k =
     (if LogRecord.Term r \<noteq> LogRecord.Term e then Some k
      else spec_mismatch_point local entries (Suc k))"

text \<open>
  The local log is truncated at the mismatch point, and the incoming entries that lie
  beyond its new end are appended.
\<close>

definition spec_reconcile :: "LogRecord list \<Rightarrow> int \<Rightarrow> LogRecord list \<Rightarrow> LogRecord list" where
  "spec_reconcile log prev_log_index entries =
     (let first = nat (prev_log_index + 1);
          truncated = (case spec_mismatch_point (drop first log) entries first of
                         None \<Rightarrow> log
                       | Some m \<Rightarrow> take m log)
      in truncated @ drop (length truncated - first) entries)"

text \<open>
  The number of nodes of the cluster known to hold the log up to index \<open>i\<close>: the peers whose
  \<^verbatim>\<open>MatchIndex\<close> is at least \<open>i\<close>, and the node itself.
\<close>

definition replicated_on :: "Node \<Rightarrow> int \<Rightarrow> int" where
  "replicated_on n i =
     1 + int (length (filter (\<lambda>(k, f). case f of None \<Rightarrow> False | Some f \<Rightarrow> MatchIndex f \<ge> i)
                        (otherNodes n)))"

text \<open>The majority of the glossary: \<open>floor(N/2)+1\<close>, where \<open>N\<close> counts the peers and the node.\<close>

definition cluster_majority :: "Node \<Rightarrow> int" where
  "cluster_majority n = (int (length (otherNodes n)) + 1) div 2 + 1"

section \<open>Properties\<close>

declare applyCommittedLogs_loop.simps [simp del]
declare commitRecords_scan.simps [simp del]
declare commitRecords_apply.simps [simp del]

subsection \<open>Field lemmas\<close>

lemma AddForeignNode_fields:
  "State (foldl (AddForeignNode dial) n ids) = State n"
  "Node.Term (foldl (AddForeignNode dial) n ids) = Node.Term n"
  "votedFor (foldl (AddForeignNode dial) n ids) = votedFor n"
  "CommitIndex (foldl (AddForeignNode dial) n ids) = CommitIndex n"
  "lastApplied (foldl (AddForeignNode dial) n ids) = lastApplied n"
  "Log (foldl (AddForeignNode dial) n ids) = Log n"
  "Store (foldl (AddForeignNode dial) n ids) = Store n"
  "Reset (foldl (AddForeignNode dial) n ids) = Reset n"
  "RaftNode (foldl (AddForeignNode dial) n ids) = RaftNode n"
  "AllowVote (foldl (AddForeignNode dial) n ids) = AllowVote n"
  "CheckForeignNode (foldl (AddForeignNode dial) n ids) = CheckForeignNode n"
  by (induction ids arbitrary: n; simp add: AddForeignNode_def)+

lemma NewNode_fields:
  "State (NewNode dial self ids termFile logFile store) = Follower"
  "Node.Term (NewNode dial self ids termFile logFile store) = TermRecord.Term (ReadTerm termFile)"
  "votedFor (NewNode dial self ids termFile logFile store) = VotedFor (ReadTerm termFile)"
  "CommitIndex (NewNode dial self ids termFile logFile store) = - 1"
  "lastApplied (NewNode dial self ids termFile logFile store) = - 1"
  "Log (NewNode dial self ids termFile logFile store) = ReadLogs logFile"
  "Store (NewNode dial self ids termFile logFile store) = store"
  "Reset (NewNode dial self ids termFile logFile store) = 0"
  "RaftNode (NewNode dial self ids termFile logFile store) = self"
  "AllowVote (NewNode dial self ids termFile logFile store) = True"
  "CheckForeignNode (NewNode dial self ids termFile logFile store) = checkForeignNode"
  by (simp_all add: NewNode_def AddForeignNode_fields)

lemma resetElectionTimer_fields:
  "Node.Term (resetElectionTimer n) = Node.Term n"
  "votedFor (resetElectionTimer n) = votedFor n"
  "CommitIndex (resetElectionTimer n) = CommitIndex n"
  "lastApplied (resetElectionTimer n) = lastApplied n"
  "Log (resetElectionTimer n) = Log n"
  "Store (resetElectionTimer n) = Store n"
  "State (resetElectionTimer n) = Follower"
  by (simp_all add: resetElectionTimer_def)

lemma S3_state_fields:
  "Node.Term S3_state = 7"
  "votedFor S3_state = Some peer_L"
  "Log S3_state = [record_k_v]"
  "CommitIndex S3_state = - 1"
  "lastApplied S3_state = - 1"
  "Store S3_state = Map.empty"
  by (simp_all add: S3_state_def NewNode_fields ReadTerm_def ReadLogs_def)

subsection \<open>Scenario S4: the follower commits and applies\<close>

text \<open>
  C5, as the code has it. From a state with term 7, the vote for L, the log of the one
  record (term 7, SET, k, v), nothing committed or applied and an empty store, the append
  request of S4 from L is answered with term 7 and success; afterwards the commit index is
  0 and the store holds exactly k = v. \<^verbatim>\<open>applyCommittedLogs\<close> moves \<^verbatim>\<open>CommitIndex\<close> only:
  \<^verbatim>\<open>lastApplied\<close> is still \<open>-1\<close>.
\<close>

theorem HandleAppend_S4:
  assumes "Node.Term n = 7" and "votedFor n = Some l" and "Log n = [record_k_v]"
    and "CommitIndex n = - 1" and "lastApplied n = - 1" and "Store n = Map.empty"
  shows "\<exists>n'. HandleAppend n \<lparr>AppendRequest.Term = 7, Leader = Some l, PrevLogIndex = 0,
                  PrevLogTerm = 7, LeaderCommit = 0, Entries = []\<rparr>
               = Inr (n', \<lparr>AppendReply.Term = 7, Success = True\<rparr>)
             \<and> CommitIndex n' = 0 \<and> lastApplied n' = - 1 \<and> Store n' = [''k'' \<mapsto> ''v'']"
  using assms
  by (simp add: HandleAppend_def validateAppend_def checkPrevious_def index_def
      applyCommittedLogs_def applyCommittedLogs_loop.simps resetElectionTimer_def
      applyRecordToStore_def db_Set_def record_k_v_def)

theorem HandleAppend_S4_witness:
  "\<exists>n'. HandleAppend S3_state S4_request = Inr (n', \<lparr>AppendReply.Term = 7, Success = True\<rparr>)
         \<and> CommitIndex n' = 0 \<and> lastApplied n' = - 1 \<and> Store n' = [''k'' \<mapsto> ''v'']"
  using HandleAppend_S4 [of S3_state peer_L]
  by (simp add: S3_state_fields S4_request_def)

text \<open>
  C5 as the specification states it asks for \<open>last_applied = 0\<close> after S4. On the
  state of S3 the handler returns the state \<open>S4_after\<close>, whose \<^verbatim>\<open>lastApplied\<close> is not 0.
\<close>

theorem S4_last_applied_counterexample:
  "HandleAppend S3_state S4_request = Inr (S4_after, \<lparr>AppendReply.Term = 7, Success = True\<rparr>)
   \<and> lastApplied S4_after \<noteq> 0"
  by (simp add: S3_state_def S4_request_def S4_after_def NewNode_def AddForeignNode_def
      NewForeignNode_def ReadTerm_def ReadLogs_def record_k_v_def peer_L_def peer_self_def
      HandleAppend_def validateAppend_def checkPrevious_def index_def applyCommittedLogs_def
      applyCommittedLogs_loop.simps resetElectionTimer_def applyRecordToStore_def db_Set_def)

subsection \<open>Applying commits past the end of the log\<close>

lemma applyCommittedLogs_loop_overrun:
  "- 1 \<le> CommitIndex n \<Longrightarrow> CommitIndex n < commitIdx \<Longrightarrow> commitIdx = int (length (Log n))
     \<Longrightarrow> applyCommittedLogs_loop n commitIdx = Inl IndexOutOfRange"
proof (induction n commitIdx rule: applyCommittedLogs_loop.induct)
  case (1 n commitIdx)
  show ?case
  proof (cases "CommitIndex n + 1 < commitIdx")
    case True
    with "1.prems" have "index (Log n) (CommitIndex n + 1) = Inr (Log n ! nat (CommitIndex n + 1))"
      by (simp add: index_def)
    with "1.IH" [of "Log n ! nat (CommitIndex n + 1)"] "1.prems" True show ?thesis
      by (subst applyCommittedLogs_loop.simps) simp
  next
    case False
    with "1.prems" have "index (Log n) (CommitIndex n + 1) = Inl IndexOutOfRange"
      by (simp add: index_def)
    with "1.prems" show ?thesis
      by (subst applyCommittedLogs_loop.simps) simp
  qed
qed

text \<open>
  Whenever the commit index is inside the log and the leader's commit index is at least the
  length of the log, \<^verbatim>\<open>applyCommittedLogs\<close> clamps to \<^verbatim>\<open>len(n.Log.Entries)\<close>, one past the
  last index, and its last round reads \<^verbatim>\<open>n.Log.Entries[len]\<close>.
\<close>

lemma applyCommittedLogs_overrun:
  "- 1 \<le> CommitIndex n \<Longrightarrow> CommitIndex n < int (length (Log n))
     \<Longrightarrow> int (length (Log n)) \<le> commitIdx
     \<Longrightarrow> applyCommittedLogs n commitIdx = Inl IndexOutOfRange"
  by (simp add: applyCommittedLogs_def Let_def applyCommittedLogs_loop_overrun)

text \<open>
  C6 asks that \<^verbatim>\<open>HandleAppend\<close> never read past the end of the log while it applies
  commits, also for a \<^verbatim>\<open>leaderCommit\<close> at or beyond the length of the log. On the state of
  S3 (a log of length 1) the request of S4 with any \<^verbatim>\<open>leaderCommit\<close> of 1 or more ends in
  the index panic, with no reply.
\<close>

theorem HandleAppend_leader_commit_past_end:
  "HandleAppend S3_state (S4_request\<lparr>LeaderCommit := 1 + int k\<rparr>) = Inl IndexOutOfRange"
  by (simp add: HandleAppend_def validateAppend_def checkPrevious_def index_def
      S4_request_def S3_state_fields resetElectionTimer_fields record_k_v_def
      applyCommittedLogs_overrun)

subsection \<open>The log-match check past the end of the log\<close>

text \<open>
  C7 asks that the log-match check answer false, and \<^verbatim>\<open>HandleAppend\<close> reply without
  success, when \<^verbatim>\<open>prevLogIndex\<close> is at or beyond the length of the log. \<^verbatim>\<open>checkPrevious\<close>
  reads \<^verbatim>\<open>n.Log.Entries[prevIndex]\<close> before it looks at \<open>inRange\<close>: for every node and every
  index from the length of the log on it panics, and so does the handler on the state of
  S3 for every \<^verbatim>\<open>prevLogIndex\<close> of 1 or more.
\<close>

theorem checkPrevious_past_end:
  "checkPrevious n (int (length (Log n)) + int k) prevTerm = Inl IndexOutOfRange
   \<and> HandleAppend S3_state (S4_request\<lparr>PrevLogIndex := 1 + int k\<rparr>) = Inl IndexOutOfRange"
  by (simp add: checkPrevious_def index_def HandleAppend_def validateAppend_def
      S4_request_def S3_state_fields resetElectionTimer_fields)

subsection \<open>An append of the current term before any vote\<close>

text \<open>
  C8 asks that an append request of the current term from a leader other than the recorded
  vote be refused without a fault in every state, also on a node that has no vote yet. A
  node started without a term file has term 0 and \<^verbatim>\<open>votedFor == nil\<close>; on a request of
  term 0 \<^verbatim>\<open>validateAppend\<close> reads \<^verbatim>\<open>n.votedFor.Id\<close> and the handler panics, whatever the
  leader and the other fields of the request.
\<close>

theorem HandleAppend_fresh_node_faults:
  "HandleAppend (NewNode dial self NodeIds None logFile store)
     \<lparr>AppendRequest.Term = 0, Leader = Some l, PrevLogIndex = p, PrevLogTerm = t,
      LeaderCommit = c, Entries = es\<rparr> = Inl NilDereference"
  by (simp add: HandleAppend_def validateAppend_def NewNode_fields ReadTerm_def)

subsection \<open>Redirecting a client\<close>

lemma DoElection_won:
  assumes "DoElection n rpc = Inr (n', True)"
  shows "State n' = Role.Leader \<and> votedFor n' = Some (RaftNode n)"
  using assms
  by (auto simp: DoElection_def Let_def SetTerm_def split: sum.splits prod.splits if_splits option.splits)

lemma fresh_election:
  "DoElection fresh_node (all_grant 1) = Inr (elected_leader, True)"
  by (simp add: fresh_node_def elected_leader_def all_grant_def NewNode_def AddForeignNode_def
      NewForeignNode_def ReadTerm_def ReadLogs_def DoElection_def SetTerm_def wrap64_def
      peer_self_def Let_def)

lemma fresh_node_fields:
  "votedFor fresh_node = None" "RaftNode fresh_node = peer_self"
  by (simp_all add: fresh_node_def NewNode_fields ReadTerm_def)

text \<open>
  C9, as the code has it. \<^verbatim>\<open>RedirectLeader\<close> does not read the role: for every node
  state it returns the client address of \<^verbatim>\<open>votedFor\<close> when a vote is recorded and the
  empty string when none is. A node that wins an election has voted for itself, so as
  Leader it returns its own client address.
\<close>

theorem RedirectLeader_voted_for:
  "(votedFor n = Some v \<longrightarrow> RedirectLeader n = ClientAddr v)
   \<and> (votedFor n = None \<longrightarrow> RedirectLeader n = '''')
   \<and> (DoElection n rpc = Inr (n', True)
        \<longrightarrow> State n' = Role.Leader \<and> RedirectLeader n' = ClientAddr (RaftNode n))"
  using DoElection_won [of n rpc n'] by (auto simp: RedirectLeader_def)

text \<open>
  The three cases at concrete nodes: the follower of S3, a node with no vote, and the
  leader of a won election.
\<close>

theorem RedirectLeader_voted_for_witness:
  "RedirectLeader S3_state = ''10.0.0.2:8080'' \<and> RedirectLeader fresh_node = ''''
   \<and> State elected_leader = Role.Leader \<and> RedirectLeader elected_leader = ''10.0.0.1:8080''"
proof -
  have "RedirectLeader S3_state = ClientAddr peer_L"
    using RedirectLeader_voted_for [where n = S3_state and v = peer_L]
    by (simp add: S3_state_fields)
  moreover have "RedirectLeader fresh_node = ''''"
    using RedirectLeader_voted_for [where n = fresh_node]
    by (simp add: fresh_node_fields)
  moreover have "State elected_leader = Role.Leader
      \<and> RedirectLeader elected_leader = ClientAddr (RaftNode fresh_node)"
    using RedirectLeader_voted_for [where n = fresh_node and rpc = "all_grant 1"
        and n' = elected_leader] fresh_election
    by simp
  ultimately show ?thesis
    by (simp add: fresh_node_fields peer_L_def peer_self_def)
qed

text \<open>
  C9 as the specification states it asks for the empty string when the role is Leader. A
  node started on an empty data directory that wins its first election is Leader and
  \<^verbatim>\<open>RedirectLeader\<close> returns its own client address.
\<close>

theorem RedirectLeader_leader_counterexample:
  "DoElection fresh_node (all_grant 1) = Inr (elected_leader, True)
   \<and> State elected_leader = Role.Leader \<and> RedirectLeader elected_leader \<noteq> ''''"
  by (simp add: fresh_node_def elected_leader_def all_grant_def NewNode_def AddForeignNode_def
      NewForeignNode_def ReadTerm_def ReadLogs_def DoElection_def SetTerm_def wrap64_def
      peer_self_def Let_def RedirectLeader_def)

subsection \<open>The term across a handler\<close>

lemma wrap64_succ: "t < i64_max \<Longrightarrow> t \<le> wrap64 (t + 1)"
proof -
  assume lt: "t < i64_max"
  have nonneg: "0 \<le> (t + 1 + 2 ^ 63) mod (2 ^ 64 :: int)" by simp
  show ?thesis
  proof (cases "- (2 ^ 63) \<le> t + 1")
    case True
    with lt have "(t + 1 + 2 ^ 63) mod (2 ^ 64 :: int) = t + 1 + 2 ^ 63"
      by (simp add: i64_max_def mod_pos_pos_trivial)
    then show ?thesis by (simp add: wrap64_def)
  next
    case False
    with nonneg show ?thesis by (simp add: wrap64_def)
  qed
qed

lemma applyCommittedLogs_loop_frame:
  "applyCommittedLogs_loop n c = Inr n' \<Longrightarrow>
     Node.Term n' = Node.Term n \<and> votedFor n' = votedFor n \<and> Log n' = Log n
     \<and> lastApplied n' = lastApplied n \<and> TermFile n' = TermFile n \<and> LogFile n' = LogFile n"
proof (induction n c rule: applyCommittedLogs_loop.induct)
  case (1 n commitIdx)
  from "1.prems" show ?case
    apply (subst (asm) applyCommittedLogs_loop.simps)
    apply (auto split: if_splits sum.splits dest!: "1.IH")
    done
qed

lemma applyCommittedLogs_frame:
  "applyCommittedLogs n c = Inr n' \<Longrightarrow>
     Node.Term n' = Node.Term n \<and> votedFor n' = votedFor n \<and> Log n' = Log n
     \<and> lastApplied n' = lastApplied n \<and> TermFile n' = TermFile n \<and> LogFile n' = LogFile n"
  by (auto simp: applyCommittedLogs_def Let_def split: if_splits dest: applyCommittedLogs_loop_frame)

lemma validateAppend_frame:
  "validateAppend n t l = Inr (n1, valid) \<Longrightarrow>
     Node.Term n1 = Node.Term n \<and> Log n1 = Log n \<and> votedFor n1 = votedFor n
     \<and> CommitIndex n1 = CommitIndex n \<and> lastApplied n1 = lastApplied n
     \<and> (valid \<longrightarrow> Node.Term n \<le> t)"
  by (auto simp: validateAppend_def resetElectionTimer_def split: if_splits sum.splits option.splits)

lemma HandleVote_term:
  assumes "HandleVote n req = Inr (n', r)"
    and "Node.Term n \<le> i64_max"
    and "\<not> (State n = Role.Leader \<and> VoteRequest.Term req = i64_max \<and> Node.Term n = i64_max)"
  shows "Node.Term n \<le> Node.Term n'"
proof -
  have "State n = Role.Leader \<Longrightarrow> VoteRequest.Term req = Node.Term n
          \<Longrightarrow> Node.Term n \<le> wrap64 (Node.Term n + 1)"
    using assms(2,3) by (intro wrap64_succ) auto
  with assms(1) show ?thesis
    by (auto simp: HandleVote_def SetTerm_def resetElectionTimer_def
        split: option.splits if_splits sum.splits)
qed

lemma HandleAppend_term:
  assumes "HandleAppend n req = Inr (n', r)"
  shows "Node.Term n \<le> Node.Term n'"
  using assms
  by (auto simp: HandleAppend_def SetTerm_def resetElectionTimer_def setLog_def Let_def
      split: option.splits if_splits sum.splits prod.splits
      dest!: validateAppend_frame applyCommittedLogs_frame)

lemma S3_vote_run:
  "HandleVote S3_state S3_vote
     = Inr (S3_voted, \<lparr>VoteReply.Term = 9, VoteGranted = True, Node = Some peer_self\<rparr>)"
  by (simp add: S3_state_def S3_vote_def S3_voted_def NewNode_def AddForeignNode_def
      NewForeignNode_def ReadTerm_def ReadLogs_def record_k_v_def peer_L_def peer_self_def
      HandleVote_def candidateLogUpToDate_def checkForeignNode_def SetTerm_def
      resetElectionTimer_def Let_def)

lemma S4_run:
  "HandleAppend S3_state S4_request = Inr (S4_after, \<lparr>AppendReply.Term = 7, Success = True\<rparr>)"
  by (simp add: S3_state_def S4_request_def S4_after_def NewNode_def AddForeignNode_def
      NewForeignNode_def ReadTerm_def ReadLogs_def record_k_v_def peer_L_def peer_self_def
      HandleAppend_def validateAppend_def checkPrevious_def index_def applyCommittedLogs_def
      applyCommittedLogs_loop.simps resetElectionTimer_def applyRecordToStore_def db_Set_def)

text \<open>
  C2, as the code has it. Whenever \<^verbatim>\<open>HandleVote\<close> or \<^verbatim>\<open>HandleAppend\<close> returns, the term
  of the node is at least the term before the call, with one exception: a Leader whose
  term is \<open>2^63 - 1\<close>, the largest \<^verbatim>\<open>int64\<close>, that receives a vote request for that term.
  (The first hypothesis of the vote part says that the term is a value of \<^verbatim>\<open>int64\<close>.)
\<close>

theorem handlers_term_monotone:
  "(HandleVote n vreq = Inr (n', vrep) \<and> Node.Term n \<le> i64_max
      \<and> \<not> (State n = Role.Leader \<and> VoteRequest.Term vreq = i64_max \<and> Node.Term n = i64_max)
      \<longrightarrow> Node.Term n \<le> Node.Term n')
   \<and> (HandleAppend n areq = Inr (n'', arep) \<longrightarrow> Node.Term n \<le> Node.Term n'')"
  using HandleVote_term [of n vreq n' vrep] HandleAppend_term [of n areq n'' arep] by blast

text \<open>A granted vote and the append of S4 on the state of S3.\<close>

theorem handlers_term_monotone_witness:
  "Node.Term S3_state \<le> Node.Term S3_voted \<and> Node.Term S3_state \<le> Node.Term S4_after"
  using handlers_term_monotone [where n = S3_state and vreq = S3_vote and n' = S3_voted
      and areq = S4_request and n'' = S4_after] S3_vote_run S4_run
  by (simp add: S3_state_fields i64_max_def)

text \<open>
  C2 as the specification states it allows no exception. A node whose term file holds
  \<open>2^63 - 2\<close> and that wins an election is Leader of term \<open>2^63 - 1\<close>; on a vote request
  for that term \<^verbatim>\<open>n.Term+1\<close> wraps around and the handler returns with the term
  \<open>-2^63\<close>.
\<close>

theorem term_wraps_counterexample:
  "DoElection max_term_candidate (all_grant i64_max) = Inr (max_term_leader, True)
   \<and> HandleVote max_term_leader max_term_vote
       = Inr (max_term_wrapped,
              \<lparr>VoteReply.Term = i64_min, VoteGranted = False, Node = Some peer_self\<rparr>)
   \<and> Node.Term max_term_leader = 9223372036854775807
   \<and> Node.Term max_term_wrapped = - 9223372036854775808"
  by (simp add: max_term_candidate_def max_term_leader_def max_term_wrapped_def max_term_vote_def
      all_grant_def NewNode_def AddForeignNode_def NewForeignNode_def ReadTerm_def ReadLogs_def
      DoElection_def HandleVote_def SetTerm_def wrap64_def i64_max_def i64_min_def
      peer_self_def peer_L_def Let_def)

subsection \<open>Granting a vote\<close>

lemma candidateLogUpToDate_spec:
  "candidateLogUpToDate n i t = Inr b \<Longrightarrow> b = spec_candidate_log_up_to_date n i t"
  by (auto simp: candidateLogUpToDate_def spec_candidate_log_up_to_date_def Let_def index_def
      split: if_splits sum.splits)

lemma spec_candidateLogUpToDate:
  "spec_candidate_log_up_to_date n i t \<Longrightarrow> candidateLogUpToDate n i t = Inr True"
  by (auto simp: candidateLogUpToDate_def spec_candidate_log_up_to_date_def Let_def index_def)

lemma checkForeignNode_member:
  "checkForeignNode addr known \<longleftrightarrow> addr \<in> fst ` set known"
  by (simp add: checkForeignNode_def map_of_eq_None_iff)

lemma HandleVote_granted_iff:
  assumes "CheckForeignNode n = checkForeignNode"
  shows "(\<exists>n' r. HandleVote n req = Inr (n', r) \<and> VoteGranted r)
     \<longleftrightarrow> (Node.Term n < VoteRequest.Term req
          \<and> (\<exists>c. Candidate req = Some c \<and> raft_Node.Id c \<in> fst ` set (otherNodes n))
          \<and> AllowVote n
          \<and> spec_candidate_log_up_to_date n (LastLogIndex req) (LastLogTerm req))"
proof
  assume "\<exists>n' r. HandleVote n req = Inr (n', r) \<and> VoteGranted r"
  then show "Node.Term n < VoteRequest.Term req
          \<and> (\<exists>c. Candidate req = Some c \<and> raft_Node.Id c \<in> fst ` set (otherNodes n))
          \<and> AllowVote n
          \<and> spec_candidate_log_up_to_date n (LastLogIndex req) (LastLogTerm req)"
    using assms
    by (auto simp: HandleVote_def checkForeignNode_member
        split: option.splits if_splits sum.splits dest: candidateLogUpToDate_spec)
next
  assume "Node.Term n < VoteRequest.Term req
          \<and> (\<exists>c. Candidate req = Some c \<and> raft_Node.Id c \<in> fst ` set (otherNodes n))
          \<and> AllowVote n
          \<and> spec_candidate_log_up_to_date n (LastLogIndex req) (LastLogTerm req)"
  then obtain c where c: "Candidate req = Some c"
      and known: "checkForeignNode (raft_Node.Id c) (otherNodes n)"
      and rest: "Node.Term n < VoteRequest.Term req" "AllowVote n"
        "candidateLogUpToDate n (LastLogIndex req) (LastLogTerm req) = Inr True"
    by (auto simp: checkForeignNode_member spec_candidateLogUpToDate)
  then show "\<exists>n' r. HandleVote n req = Inr (n', r) \<and> VoteGranted r"
    using assms by (simp add: HandleVote_def)
qed

lemma HandleVote_granted_effect:
  assumes "HandleVote n req = Inr (n', r)" and "VoteGranted r"
  shows "n' = SetTerm (resetElectionTimer n) (VoteRequest.Term req) (Candidate req)
         \<and> VoteReply.Term r = VoteRequest.Term req"
  using assms
  by (auto simp: HandleVote_def SetTerm_def split: option.splits if_splits sum.splits)

lemma HandleVote_denied_frame:
  assumes "HandleVote n req = Inr (n', r)" and "\<not> VoteGranted r"
    and "\<not> (VoteRequest.Term req = Node.Term n \<and> State n = Role.Leader)"
  shows "n' = n"
  using assms
  by (auto simp: HandleVote_def split: option.splits if_splits sum.splits)

text \<open>
  C3. On a node with the membership check of \<^verbatim>\<open>NewNode\<close>, \<^verbatim>\<open>HandleVote\<close> returns a
  granted vote exactly when the term of the request is greater than the term of the node,
  the id of the candidate is a key of the peer map, \<^verbatim>\<open>AllowVote\<close> holds and the log of
  the candidate is up to date by the predicate of the specification. On a grant the term
  is the term of the request and the vote is the candidate, in memory and in the term
  file, the role is Follower and one more reset signal is sent. On a denial, other than
  that of a Leader asked for its own term, the term, the vote and the term file are as
  before.
\<close>

theorem HandleVote_grant:
  assumes "CheckForeignNode n = checkForeignNode"
  shows "((\<exists>n1 r1. HandleVote n req = Inr (n1, r1) \<and> VoteGranted r1)
           \<longleftrightarrow> (Node.Term n < VoteRequest.Term req
                \<and> (\<exists>c. Candidate req = Some c \<and> raft_Node.Id c \<in> fst ` set (otherNodes n))
                \<and> AllowVote n
                \<and> spec_candidate_log_up_to_date n (LastLogIndex req) (LastLogTerm req)))
         \<and> (HandleVote n req = Inr (n', r) \<and> VoteGranted r
              \<longrightarrow> Node.Term n' = VoteRequest.Term req \<and> votedFor n' = Candidate req
                  \<and> TermFile n' = Some \<lparr>TermRecord.Term = VoteRequest.Term req,
                                         VotedFor = Candidate req\<rparr>
                  \<and> State n' = Follower \<and> Reset n' = Suc (Reset n)
                  \<and> VoteReply.Term r = VoteRequest.Term req)
         \<and> (HandleVote n req = Inr (n', r) \<and> \<not> VoteGranted r
              \<and> \<not> (VoteRequest.Term req = Node.Term n \<and> State n = Role.Leader)
              \<longrightarrow> Node.Term n' = Node.Term n \<and> votedFor n' = votedFor n
                  \<and> TermFile n' = TermFile n)"
proof (intro conjI impI)
  show "(\<exists>n1 r1. HandleVote n req = Inr (n1, r1) \<and> VoteGranted r1)
           \<longleftrightarrow> (Node.Term n < VoteRequest.Term req
                \<and> (\<exists>c. Candidate req = Some c \<and> raft_Node.Id c \<in> fst ` set (otherNodes n))
                \<and> AllowVote n
                \<and> spec_candidate_log_up_to_date n (LastLogIndex req) (LastLogTerm req))"
    by (rule HandleVote_granted_iff [OF assms])
qed (auto dest: HandleVote_granted_effect HandleVote_denied_frame
      simp: SetTerm_def resetElectionTimer_def)

text \<open>The grant of a vote of term 9 to L by the node of S3.\<close>

theorem HandleVote_grant_witness:
  "CheckForeignNode S3_state = checkForeignNode
   \<and> HandleVote S3_state S3_vote
       = Inr (S3_voted, \<lparr>VoteReply.Term = 9, VoteGranted = True, Node = Some peer_self\<rparr>)
   \<and> spec_candidate_log_up_to_date S3_state (- 1) 0
   \<and> Node.Term S3_voted = 9 \<and> votedFor S3_voted = Some peer_L \<and> State S3_voted = Follower"
proof -
  have chk: "CheckForeignNode S3_state = checkForeignNode"
    by (simp add: S3_state_def NewNode_fields)
  from HandleVote_grant [OF chk, of S3_vote S3_voted
      "\<lparr>VoteReply.Term = 9, VoteGranted = True, Node = Some peer_self\<rparr>"] S3_vote_run
  have "spec_candidate_log_up_to_date S3_state (- 1) 0
     \<and> Node.Term S3_voted = 9 \<and> votedFor S3_voted = Some peer_L \<and> State S3_voted = Follower"
    by (simp add: S3_vote_def)
  with chk S3_vote_run show ?thesis by simp
qed

subsection \<open>Log reconciliation\<close>

lemma reconcileLogs_scan_cases:
  "i \<le> length entries \<Longrightarrow>
   (reconcileLogs_scan ov entries prev i = - 1 \<and> i + length ov \<le> length entries
      \<and> (\<forall>j < length ov. LogRecord.Term (ov ! j) = LogRecord.Term (entries ! (i + j))))
   \<or> (\<exists>j. j < length ov \<and> i + j < length entries
          \<and> reconcileLogs_scan ov entries prev i = prev + 1 + int (i + j)
          \<and> LogRecord.Term (ov ! j) \<noteq> LogRecord.Term (entries ! (i + j))
          \<and> (\<forall>j' < j. LogRecord.Term (ov ! j') = LogRecord.Term (entries ! (i + j'))))
   \<or> (length entries < i + length ov
          \<and> reconcileLogs_scan ov entries prev i = prev + int (length entries)
          \<and> (\<forall>j. i + j < length entries \<longrightarrow>
                 LogRecord.Term (ov ! j) = LogRecord.Term (entries ! (i + j))))"
proof (induction ov arbitrary: i)
  case Nil
  then show ?case by simp
next
  case (Cons r ov)
  show ?case
  proof (cases "i \<ge> length entries")
    case True
    with Cons.prems have "i = length entries" by simp
    then show ?thesis by simp
  next
    case False
    note lt = this
    show ?thesis
    proof (cases "LogRecord.Term r \<noteq> LogRecord.Term (entries ! i)")
      case True
      with lt have "0 < length (r # ov) \<and> i + 0 < length entries
          \<and> reconcileLogs_scan (r # ov) entries prev i = prev + 1 + int (i + 0)
          \<and> LogRecord.Term ((r # ov) ! 0) \<noteq> LogRecord.Term (entries ! (i + 0))
          \<and> (\<forall>j' < 0. LogRecord.Term ((r # ov) ! j') = LogRecord.Term (entries ! (i + j')))"
        by simp
      then show ?thesis by blast
    next
      case False
      with lt have step: "reconcileLogs_scan (r # ov) entries prev i
          = reconcileLogs_scan ov entries prev (Suc i)" by simp
      from lt have "Suc i \<le> length entries" by simp
      from Cons.IH [OF this] consider
        (a) "reconcileLogs_scan ov entries prev (Suc i) = - 1" "Suc i + length ov \<le> length entries"
          "\<forall>j < length ov. LogRecord.Term (ov ! j) = LogRecord.Term (entries ! (Suc i + j))"
        | (b) j where "j < length ov" "Suc i + j < length entries"
          "reconcileLogs_scan ov entries prev (Suc i) = prev + 1 + int (Suc i + j)"
          "LogRecord.Term (ov ! j) \<noteq> LogRecord.Term (entries ! (Suc i + j))"
          "\<forall>j' < j. LogRecord.Term (ov ! j') = LogRecord.Term (entries ! (Suc i + j'))"
        | (c) "length entries < Suc i + length ov"
          "reconcileLogs_scan ov entries prev (Suc i) = prev + int (length entries)"
          "\<forall>j. Suc i + j < length entries \<longrightarrow>
                 LogRecord.Term (ov ! j) = LogRecord.Term (entries ! (Suc i + j))"
        by blast
      then show ?thesis
      proof cases
        case a
        have "\<forall>j < length (r # ov). LogRecord.Term ((r # ov) ! j) = LogRecord.Term (entries ! (i + j))"
          using a(3) False by (auto simp: nth_Cons split: nat.splits)
        with a step show ?thesis by simp
      next
        case b
        have "\<forall>j' < Suc j. LogRecord.Term ((r # ov) ! j') = LogRecord.Term (entries ! (i + j'))"
          using b(5) False by (auto simp: nth_Cons split: nat.splits)
        with b step have "Suc j < length (r # ov) \<and> i + Suc j < length entries
          \<and> reconcileLogs_scan (r # ov) entries prev i = prev + 1 + int (i + Suc j)
          \<and> LogRecord.Term ((r # ov) ! Suc j) \<noteq> LogRecord.Term (entries ! (i + Suc j))
          \<and> (\<forall>j' < Suc j. LogRecord.Term ((r # ov) ! j') = LogRecord.Term (entries ! (i + j')))"
          by simp
        then show ?thesis by blast
      next
        case c
        have "\<forall>j. i + j < length entries \<longrightarrow>
                 LogRecord.Term ((r # ov) ! j) = LogRecord.Term (entries ! (i + j))"
          using c(3) False by (auto simp: nth_Cons split: nat.splits)
        with c step show ?thesis by simp
      qed
    qed
  qed
qed

lemma reconcileLogs_result:
  assumes lo: "- 1 \<le> PrevLogIndex body" and hi: "PrevLogIndex body < int (length log)"
    and ne: "Entries body \<noteq> []" and ldr: "AppendRequest.Leader body = Some l"
  shows "\<exists>k d. reconcileLogs log body = Inr (take k log @ drop d (Entries body))
           \<and> nat (PrevLogIndex body + 1) \<le> k \<and> k \<le> length log"
proof (cases "PrevLogIndex body < int (length log) - 1")
  case False
  with hi have "PrevLogIndex body = int (length log) - 1" by simp
  then have "reconcileLogs log body = Inr (take (length log) log @ drop 0 (Entries body))"
    using ldr by (simp add: reconcileLogs_def slice_from_def)
  moreover have "nat (PrevLogIndex body + 1) \<le> length log" using hi by simp
  ultimately show ?thesis by blast
next
  case True
  let ?prev = "PrevLogIndex body"
  let ?ov = "drop (nat (?prev + 1)) log"
  let ?m = "reconcileLogs_scan ?ov (Entries body) ?prev 0"
  have len_ov: "int (length ?ov) = int (length log) - (?prev + 1)"
    using lo True by simp
  have sl: "slice_from log (?prev + 1) = Inr ?ov"
    using lo True by (simp add: slice_from_def)
  from reconcileLogs_scan_cases [of 0 "Entries body" ?ov ?prev] consider
    (a) "?m = - 1" "length ?ov \<le> length (Entries body)"
    | (b) j where "j < length ?ov" "j < length (Entries body)" "?m = ?prev + 1 + int j"
    | (c) "length (Entries body) < length ?ov" "?m = ?prev + int (length (Entries body))"
    by auto
  then show ?thesis
  proof cases
    case a
    have "int (length log) - 1 - ?prev = int (length ?ov)" using len_ov by simp
    with a True sl ldr have "reconcileLogs log body
        = Inr (take (length log) log @ drop (length ?ov) (Entries body))"
      by (simp add: reconcileLogs_def slice_from_def del: length_drop)
    moreover have "nat (?prev + 1) \<le> length log" using hi by simp
    ultimately show ?thesis by blast
  next
    case b
    have m0: "0 \<le> ?m" and mlen: "?m \<le> int (length log)"
      using b lo len_ov by simp_all
    have st: "slice_to log ?m = Inr (take (nat ?m) log)"
      using m0 mlen by (simp add: slice_to_def)
    have "int (length (take (nat ?m) log)) - 1 - ?prev = int j"
      using b m0 mlen by simp
    then have sf: "slice_from (Entries body) (int (length (take (nat ?m) log)) - 1 - ?prev)
        = Inr (drop j (Entries body))"
      using b by (simp add: slice_from_def)
    have "reconcileLogs log body = Inr (take (nat ?m) log @ drop j (Entries body))"
      unfolding reconcileLogs_def using True sl m0 st sf ldr by (simp add: Let_def)
    moreover have "nat (?prev + 1) \<le> nat ?m" using b by simp
    moreover have "nat ?m \<le> length log" using mlen by simp
    ultimately show ?thesis by blast
  next
    case c
    from ne have pos: "0 < length (Entries body)" by simp
    then have pos': "1 \<le> int (length (Entries body))" by linarith
    have m0: "0 \<le> ?m"
      using c(2) lo pos' by linarith
    have mlen: "?m \<le> int (length log)"
      using c(1,2) len_ov by linarith
    have st: "slice_to log ?m = Inr (take (nat ?m) log)"
      using m0 mlen by (simp add: slice_to_def)
    have "int (length (take (nat ?m) log)) = ?m"
      using m0 mlen by simp
    then have "int (length (take (nat ?m) log)) - 1 - ?prev = int (length (Entries body) - 1)"
      using c(2) pos by linarith
    then have sf: "slice_from (Entries body) (int (length (take (nat ?m) log)) - 1 - ?prev)
        = Inr (drop (length (Entries body) - 1) (Entries body))"
      by (simp add: slice_from_def)
    have "reconcileLogs log body
        = Inr (take (nat ?m) log @ drop (length (Entries body) - 1) (Entries body))"
      unfolding reconcileLogs_def using True sl m0 st sf ldr by (simp add: Let_def)
    moreover have "nat (?prev + 1) \<le> nat ?m" using c(2) pos' by linarith
    moreover have "nat ?m \<le> length log" using mlen by simp
    ultimately show ?thesis by blast
  qed
qed

lemma checkPrevious_matched:
  "checkPrevious n p t = Inr True \<Longrightarrow> p < int (length (Log n))"
  by (auto simp: checkPrevious_def index_def Let_def split: if_splits)

lemma S6_state_fields:
  "Log S6_state = S6_log"
  by (simp add: S6_state_def NewNode_fields ReadLogs_def)

lemma S6_run: "reconcileLogs S6_log S6_request = Inr S6_result"
  by (simp add: S6_log_def S6_request_def S6_result_def set_record_def reconcileLogs_def
      slice_from_def slice_to_def peer_L_def Let_def)

text \<open>
  C10. For a request whose log-match check succeeds, with at least one entry and a leader,
  \<^verbatim>\<open>reconcileLogs\<close> returns a log whenever \<^verbatim>\<open>prevLogIndex\<close> is at least \<open>-1\<close>, and a log
  it returns has the entries of the previous log at every index from 0 to
  \<^verbatim>\<open>prevLogIndex\<close>.
\<close>

theorem reconcileLogs_keeps_prefix:
  assumes matched: "checkPrevious n (PrevLogIndex body) (PrevLogTerm body) = Inr True"
    and ne: "Entries body \<noteq> []"
    and ldr: "AppendRequest.Leader body = Some l"
  shows "(- 1 \<le> PrevLogIndex body \<longrightarrow> (\<exists>result. reconcileLogs (Log n) body = Inr result))
       \<and> (reconcileLogs (Log n) body = Inr log' \<and> 0 \<le> i \<and> i \<le> PrevLogIndex body
             \<longrightarrow> i < int (length log') \<and> log' ! nat i = Log n ! nat i)"
proof (intro conjI impI)
  assume "- 1 \<le> PrevLogIndex body"
  from reconcileLogs_result [OF this checkPrevious_matched [OF matched] ne ldr]
  show "\<exists>result. reconcileLogs (Log n) body = Inr result" by blast
next
  assume a: "reconcileLogs (Log n) body = Inr log' \<and> 0 \<le> i \<and> i \<le> PrevLogIndex body"
  then have lo: "- 1 \<le> PrevLogIndex body" by simp
  from reconcileLogs_result [OF lo checkPrevious_matched [OF matched] ne ldr] a
  obtain k d where log': "log' = take k (Log n) @ drop d (Entries body)"
    and k: "nat (PrevLogIndex body + 1) \<le> k" "k \<le> length (Log n)"
    by auto
  from a k have ik: "nat i < k" by linarith
  with k show "i < int (length log')" using a by (simp add: log')
  from ik k show "log' ! nat i = Log n ! nat i" by (simp add: log' nth_append)
qed

text \<open>Scenario S6: index 0 of the log survives the reconciliation.\<close>

theorem reconcileLogs_keeps_prefix_witness:
  "checkPrevious S6_state 0 1 = Inr True \<and> reconcileLogs (Log S6_state) S6_request = Inr S6_result
   \<and> S6_result ! 0 = S6_log ! 0"
proof -
  have matched: "checkPrevious S6_state (PrevLogIndex S6_request) (PrevLogTerm S6_request) = Inr True"
    by (simp add: checkPrevious_def index_def S6_state_fields S6_log_def S6_request_def
        set_record_def)
  have ne: "Entries S6_request \<noteq> []" by (simp add: S6_request_def)
  have ldr: "AppendRequest.Leader S6_request = Some peer_L" by (simp add: S6_request_def)
  from reconcileLogs_keeps_prefix [OF matched ne ldr, where log' = S6_result and i = 0] S6_run
  have "S6_result ! nat 0 = Log S6_state ! nat 0"
    by (simp add: S6_state_fields S6_request_def)
  with matched S6_run show ?thesis
    by (simp add: S6_state_fields S6_request_def)
qed

text \<open>
  C4 asks that the log be truncated exactly at the mismatch point, also where the local
  log has entries beyond the incoming ones. On scenario S6, a mismatch of terms,
  \<^verbatim>\<open>reconcileLogs\<close> and the reconciliation of the specification agree. Where the incoming
  entries run out first, the code sets \<^verbatim>\<open>mismatchIdx\<close> to \<^verbatim>\<open>PrevLogIndex + i\<close>, one below the
  first surplus index \<^verbatim>\<open>PrevLogIndex + 1 + i\<close> that the branch of the term mismatch uses:
  on a log of two records of term 1 and a request from the start of the log with one
  record of term 1 it cuts the log to nothing and appends the incoming record, where the
  specification keeps the first local record; \<^verbatim>\<open>HandleAppend\<close> stores the result.
\<close>

theorem reconcileLogs_extra_entries:
  "reconcileLogs S6_log S6_request = Inr S6_result
   \<and> spec_reconcile S6_log (PrevLogIndex S6_request) (Entries S6_request) = S6_result
   \<and> reconcileLogs extra_log extra_request = Inr [set_record 1 ''x'' ''9'']
   \<and> spec_reconcile extra_log (PrevLogIndex extra_request) (Entries extra_request)
       = [set_record 1 ''a'' ''1'']
   \<and> HandleAppend extra_state extra_request
       = Inr (extra_after, \<lparr>AppendReply.Term = 1, Success = True\<rparr>)
   \<and> Log extra_after = [set_record 1 ''x'' ''9'']"
  by (simp add: S6_log_def S6_request_def S6_result_def extra_log_def extra_request_def
      extra_state_def extra_after_def set_record_def reconcileLogs_def spec_reconcile_def
      slice_from_def slice_to_def peer_L_def peer_self_def Let_def
      NewNode_def AddForeignNode_def NewForeignNode_def ReadTerm_def ReadLogs_def
      HandleAppend_def validateAppend_def checkPrevious_def applyCommittedLogs_def
      resetElectionTimer_def setLog_def)

subsection \<open>Commit on the leader\<close>

lemma commitRecords_count_eq:
  "commitRecords_count ps i c = Inr r \<Longrightarrow>
     r = c + int (length (filter (\<lambda>(k, f). case f of None \<Rightarrow> False | Some f \<Rightarrow> MatchIndex f \<ge> i) ps))"
  by (induction ps i c rule: commitRecords_count.induct) (auto split: if_splits)

lemma commitRecords_scan_result:
  "commitRecords_scan n majority lastIdx = Inr n' \<Longrightarrow>
     n' = n\<lparr>CommitIndex := CommitIndex n'\<rparr>
     \<and> ((CommitIndex n' = CommitIndex n
           \<and> (\<forall>i. CommitIndex n < i \<and> i \<le> lastIdx \<longrightarrow> replicated_on n i < majority))
        \<or> (CommitIndex n < CommitIndex n' \<and> CommitIndex n' \<le> lastIdx
           \<and> majority \<le> replicated_on n (CommitIndex n')
           \<and> (\<forall>i. CommitIndex n' < i \<and> i \<le> lastIdx \<longrightarrow> replicated_on n i < majority)))"
proof (induction n majority lastIdx rule: commitRecords_scan.induct)
  case (1 n majority lastIdx)
  show ?case
  proof (cases "lastIdx > CommitIndex n")
    case False
    with "1.prems" have "n' = n" by (simp add: commitRecords_scan.simps)
    with False show ?thesis by simp
  next
    case True
    with "1.prems" obtain count where cnt: "commitRecords_count (otherNodes n) lastIdx 1 = Inr count"
      and rest: "(if count \<ge> majority then Inr (n\<lparr>CommitIndex := lastIdx\<rparr>)
                  else commitRecords_scan n majority (lastIdx - 1)) = Inr n'"
      by (subst (asm) commitRecords_scan.simps) (auto split: sum.splits)
    from commitRecords_count_eq [OF cnt] have count: "count = replicated_on n lastIdx"
      by (simp add: replicated_on_def)
    show ?thesis
    proof (cases "count \<ge> majority")
      case True
      with rest have "n' = n\<lparr>CommitIndex := lastIdx\<rparr>" by simp
      with True count \<open>lastIdx > CommitIndex n\<close> show ?thesis by simp
    next
      case False
      with rest have "commitRecords_scan n majority (lastIdx - 1) = Inr n'" by simp
      from "1.IH" [OF True cnt False this] have
        ih: "n' = n\<lparr>CommitIndex := CommitIndex n'\<rparr>
     \<and> ((CommitIndex n' = CommitIndex n
           \<and> (\<forall>i. CommitIndex n < i \<and> i \<le> lastIdx - 1 \<longrightarrow> replicated_on n i < majority))
        \<or> (CommitIndex n < CommitIndex n' \<and> CommitIndex n' \<le> lastIdx - 1
           \<and> majority \<le> replicated_on n (CommitIndex n')
           \<and> (\<forall>i. CommitIndex n' < i \<and> i \<le> lastIdx - 1 \<longrightarrow> replicated_on n i < majority)))" .
      have top: "replicated_on n lastIdx < majority" using False count by simp
      have ext: "\<And>c. (\<forall>i. c < i \<and> i \<le> lastIdx - 1 \<longrightarrow> replicated_on n i < majority)
          \<Longrightarrow> (\<forall>i. c < i \<and> i \<le> lastIdx \<longrightarrow> replicated_on n i < majority)"
      proof (intro allI impI)
        fix c i
        assume h: "\<forall>i. c < i \<and> i \<le> lastIdx - 1 \<longrightarrow> replicated_on n i < majority"
          and i: "c < i \<and> i \<le> lastIdx"
        show "replicated_on n i < majority"
        proof (cases "i = lastIdx")
          case True
          with top show ?thesis by simp
        next
          case False
          with i have "c < i \<and> i \<le> lastIdx - 1" by simp
          with h show ?thesis by blast
        qed
      qed
      from ih have shape: "n' = n\<lparr>CommitIndex := CommitIndex n'\<rparr>" by blast
      from ih consider
        (same) "CommitIndex n' = CommitIndex n"
          "\<forall>i. CommitIndex n < i \<and> i \<le> lastIdx - 1 \<longrightarrow> replicated_on n i < majority"
        | (moved) "CommitIndex n < CommitIndex n'" "CommitIndex n' \<le> lastIdx - 1"
          "majority \<le> replicated_on n (CommitIndex n')"
          "\<forall>i. CommitIndex n' < i \<and> i \<le> lastIdx - 1 \<longrightarrow> replicated_on n i < majority"
        by blast
      then show ?thesis
      proof cases
        case same
        from ext [OF same(2)] same(1) shape show ?thesis by blast
      next
        case moved
        from moved(2) have "CommitIndex n' \<le> lastIdx" by simp
        with ext [OF moved(4)] moved(1,3) shape show ?thesis by blast
      qed
    qed
  qed
qed

lemma commitRecords_apply_frame:
  "commitRecords_apply n = Inr n' \<Longrightarrow>
     CommitIndex n' = CommitIndex n \<and> otherNodes n' = otherNodes n \<and> Log n' = Log n
     \<and> Node.Term n' = Node.Term n"
proof (induction n rule: commitRecords_apply.induct)
  case (1 n)
  from "1.prems" show ?case
    apply (subst (asm) commitRecords_apply.simps)
    apply (auto split: if_splits sum.splits dest!: "1.IH")
    done
qed

lemma even_peers_majority:
  "even (length (otherNodes n)) \<Longrightarrow> int (length (otherNodes n)) div 2 + 1 = cluster_majority n"
  unfolding cluster_majority_def by presburger

lemma old_term_run: "commitRecords old_term_leader = Inr old_term_committed"
  by (simp add: old_term_leader_def old_term_committed_def S3_state_def NewNode_def
      AddForeignNode_def NewForeignNode_def ReadTerm_def ReadLogs_def record_k_v_def
      peer_L_def peer_self_def commitRecords_def commitRecords_scan.simps
      commitRecords_apply.simps index_def applyRecordToStore_def db_Set_def Let_def)

text \<open>
  C1, as the code has it. In a cluster with an even number of peers, a call of
  \<^verbatim>\<open>commitRecords\<close> that returns either leaves the commit index as it was or moves it up
  to an index of the log that a majority of the cluster holds, the node counted: at least
  \<open>floor((len(peers)+1)/2)+1\<close> nodes. When no index above the old commit index is held by
  such a majority, the commit index is unchanged. The term of the log record at the new
  commit index is not looked at.
\<close>

theorem commitRecords_majority:
  assumes ret: "commitRecords n = Inr n'" and ev: "even (length (otherNodes n))"
  shows "(CommitIndex n' = CommitIndex n
          \<or> (CommitIndex n < CommitIndex n' \<and> CommitIndex n' < int (length (Log n))
              \<and> cluster_majority n \<le> replicated_on n (CommitIndex n')))
       \<and> ((\<forall>i. CommitIndex n < i \<and> i < int (length (Log n))
                \<longrightarrow> replicated_on n i < cluster_majority n)
            \<longrightarrow> CommitIndex n' = CommitIndex n)"
proof -
  from ret obtain n1 where scan: "commitRecords_scan n (cluster_majority n)
        (int (length (Log n)) - 1) = Inr n1"
    and app: "commitRecords_apply n1 = Inr n'"
    by (auto simp: commitRecords_def Let_def even_peers_majority [OF ev] split: sum.splits)
  from commitRecords_apply_frame [OF app] have eq: "CommitIndex n' = CommitIndex n1" by simp
  from commitRecords_scan_result [OF scan] have
    "(CommitIndex n1 = CommitIndex n
           \<and> (\<forall>i. CommitIndex n < i \<and> i \<le> int (length (Log n)) - 1
                 \<longrightarrow> replicated_on n i < cluster_majority n))
        \<or> (CommitIndex n < CommitIndex n1 \<and> CommitIndex n1 \<le> int (length (Log n)) - 1
           \<and> cluster_majority n \<le> replicated_on n (CommitIndex n1)
           \<and> (\<forall>i. CommitIndex n1 < i \<and> i \<le> int (length (Log n)) - 1
                 \<longrightarrow> replicated_on n i < cluster_majority n))"
    by blast
  then show ?thesis
  proof
    assume "CommitIndex n1 = CommitIndex n
           \<and> (\<forall>i. CommitIndex n < i \<and> i \<le> int (length (Log n)) - 1
                 \<longrightarrow> replicated_on n i < cluster_majority n)"
    with eq show ?thesis by simp
  next
    assume adv: "CommitIndex n < CommitIndex n1 \<and> CommitIndex n1 \<le> int (length (Log n)) - 1
           \<and> cluster_majority n \<le> replicated_on n (CommitIndex n1)
           \<and> (\<forall>i. CommitIndex n1 < i \<and> i \<le> int (length (Log n)) - 1
                 \<longrightarrow> replicated_on n i < cluster_majority n)"
    then have "\<not> (\<forall>i. CommitIndex n < i \<and> i < int (length (Log n))
                \<longrightarrow> replicated_on n i < cluster_majority n)"
      by (intro notI) (drule spec [of _ "CommitIndex n1"], simp)
    with adv eq show ?thesis by simp
  qed
qed

text \<open>The leader of term 8 whose two peers hold index 0.\<close>

theorem commitRecords_majority_witness:
  "even (length (otherNodes old_term_leader))
   \<and> CommitIndex old_term_leader < CommitIndex old_term_committed
   \<and> cluster_majority old_term_leader \<le> replicated_on old_term_leader (CommitIndex old_term_committed)"
proof -
  have ev: "even (length (otherNodes old_term_leader))"
    by (simp add: old_term_leader_def)
  from commitRecords_majority [OF old_term_run ev] ev show ?thesis
    by (simp add: old_term_leader_def old_term_committed_def S3_state_fields)
qed

text \<open>
  C1 as the specification states it asks for a majority of \<open>floor((len(peers)+1)/2)+1\<close>
  nodes in every cluster and for \<open>log[i].term\<close> to be the current term. The leader of a
  cluster of two, elected with term 7, commits index 0 of term 7 although only the leader
  itself holds it: \<^verbatim>\<open>commitRecords\<close> takes \<open>numNodes\<close> to be the number of peers. The
  leader of term 8 in a cluster of three commits index 0, a record of term 7.
\<close>

theorem commitRecords_counterexample:
  "DoElection two_node_follower (all_grant 7) = Inr (two_node_leader, True)
   \<and> commitRecords two_node_leader = Inr two_node_committed
   \<and> CommitIndex two_node_leader = - 1 \<and> CommitIndex two_node_committed = 0
   \<and> replicated_on two_node_leader 0 = 1 \<and> cluster_majority two_node_leader = 2
   \<and> commitRecords old_term_leader = Inr old_term_committed
   \<and> CommitIndex old_term_leader = - 1 \<and> CommitIndex old_term_committed = 0
   \<and> LogRecord.Term (Log old_term_leader ! 0) = 7 \<and> Node.Term old_term_leader = 8"
  by (simp add: two_node_follower_def two_node_leader_def two_node_committed_def
      old_term_leader_def old_term_committed_def S3_state_def all_grant_def
      NewNode_def AddForeignNode_def NewForeignNode_def ReadTerm_def ReadLogs_def record_k_v_def
      peer_L_def peer_self_def DoElection_def SetTerm_def wrap64_def
      commitRecords_def commitRecords_scan.simps
      commitRecords_apply.simps index_def applyRecordToStore_def db_Set_def Let_def
      replicated_on_def cluster_majority_def)

end
